theory Spec2Isabelle
  imports Main "HOL-Library.Word"
begin

section \<open>Errors\<close>

text \<open>
  A Go \<open>error\<close> value. \<open>Errorf msg e\<close> stands for
  \<^verbatim>\<open>fmt.Errorf("msg: %w", e)\<close>, an error that wraps \<open>e\<close> behind the prefix \<open>msg\<close>.
\<close>

datatype error = Err string | Errorf string error

section \<open>Pods, as far as \<open>pkg/client/check.go\<close> reads them\<close>

text \<open>
  \<open>v1.PodPhase\<close> is a string type in the Kubernetes API; the five named phases are its
  constants, and \<open>PodPhaseOther s\<close> is a string \<open>s\<close> that is none of the five (the
  empty phase of a pod without status included).
\<close>

datatype PodPhase =
    PodPending | PodRunning | PodSucceeded | PodFailed | PodUnknown
  | PodPhaseOther string

text \<open>
  \<open>ContainerStateTerminated.ExitCode\<close> is an \<open>int32\<close>. The field is called
  \<open>TerminatedExitCode\<close> here, since \<open>ExitCode\<close> is the field of the client below.
  \<open>State.Terminated\<close> is a pointer: \<open>None\<close> is \<open>nil\<close>.
\<close>

record ContainerStateTerminated =
  TerminatedExitCode :: "32 word"

record ContainerState =
  Terminated :: "ContainerStateTerminated option"

record ContainerStatus =
  Name :: string
  State :: ContainerState

record PodStatus =
  Phase :: PodPhase
  ContainerStatuses :: "ContainerStatus list"

record Pod =
  Status :: PodStatus

section \<open>The watch\<close>

text \<open>
  \<open>event.Object\<close> is a \<open>runtime.Object\<close>. The type assertion
  \<^verbatim>\<open>event.Object.(*v1.Pod)\<close> succeeds on \<open>PodObject\<close> and fails on \<open>OtherObject\<close>,
  which stands for every value of another dynamic type (a \<open>*metav1.Status\<close>, a nil
  interface).
\<close>

datatype EventType = Added | Modified | Deleted | Bookmark | Error

datatype RuntimeObject = PodObject Pod | OtherObject

record Event =
  Type :: EventType
  Object :: RuntimeObject

text \<open>
  What the result channel of the watch does over its whole life: it delivers \<open>events\<close>
  in this order, and then it is either closed (\<open>closes\<close>) or stays open and silent
  for ever, in which case a receiver blocks.
\<close>

record ResultChan =
  events :: "Event list"
  closes :: bool

section \<open>The client\<close>

record Client =
  ExitCode :: int

text \<open>
  The state that \<open>FetchExitCode\<close> works on: the client, and the values assigned to
  \<open>c.ExitCode\<close> so far, oldest first. \<open>stored\<close> is a trace of the assignments; the
  code never reads it.
\<close>

record run_state =
  client :: Client
  stored :: "int list"

definition setExitCode :: "int \<Rightarrow> run_state \<Rightarrow> run_state" where
  "setExitCode v s = s\<lparr>client := (client s)\<lparr>ExitCode := v\<rparr>, stored := stored s @ [v]\<rparr>"

text \<open>
  The loop of lines 109 to 113, run when the pod's phase is Succeeded or Failed.
  \<open>conf\<close> is \<open>common.ConformanceContainer\<close>; \<open>int(...)\<close> of an \<open>int32\<close> is its
  signed value.
\<close>

fun scanFinished :: "string \<Rightarrow> run_state \<Rightarrow> ContainerStatus list \<Rightarrow> run_state" where
  "scanFinished conf s [] = s"
| "scanFinished conf s (containerStatus # rest) =
     (case Terminated (State containerStatus) of
        Some t \<Rightarrow>
          if Name containerStatus = conf
          then scanFinished conf (setExitCode (sint (TerminatedExitCode t)) s) rest
          else scanFinished conf s rest
      | None \<Rightarrow> scanFinished conf s rest)"

text \<open>
  The loop of lines 117 to 125, run when the pod's phase is Running. The second
  component is the local variable \<open>terminated\<close>.
\<close>

fun scanRunning ::
  "string \<Rightarrow> run_state \<times> bool \<Rightarrow> ContainerStatus list \<Rightarrow> run_state \<times> bool" where
  "scanRunning conf (s, terminated) [] = (s, terminated)"
| "scanRunning conf (s, terminated) (containerStatus # rest) =
     (case Terminated (State containerStatus) of
        Some t \<Rightarrow>
          if Name containerStatus = conf
          then scanRunning conf (setExitCode (sint (TerminatedExitCode t)) s, True) rest
          else scanRunning conf (s, True) rest
      | None \<Rightarrow> scanRunning conf (s, terminated) rest)"

text \<open>
  What a call of \<open>FetchExitCode\<close> leaves behind when it returns: the state, the error
  it returns (\<open>None\<close> is \<open>nil\<close>), and the events of the channel it has not received.
\<close>

record fetch_result =
  final :: run_state
  err :: "error option"
  unconsumed :: "Event list"

text \<open>
  The \<^verbatim>\<open>for event := range watchInterface.ResultChan()\<close> loop, lines 99 to 130.
  The result \<open>None\<close> means that the loop blocks for ever on a channel that is open
  and has nothing more to deliver.
\<close>

fun watchLoop :: "string \<Rightarrow> run_state \<Rightarrow> Event list \<Rightarrow> bool \<Rightarrow> fetch_result option" where
  "watchLoop conf s [] closed =
     (if closed then Some \<lparr>final = s, err = None, unconsumed = []\<rparr> else None)"
| "watchLoop conf s (event # rest) closed =
     (case Object event of
        OtherObject \<Rightarrow>
          Some \<lparr>final = setExitCode (- 1) s, err = None, unconsumed = rest\<rparr>
      | PodObject pod \<Rightarrow>
          if Phase (Status pod) = PodSucceeded \<or> Phase (Status pod) = PodFailed
          then Some \<lparr>final = scanFinished conf s (ContainerStatuses (Status pod)),
                      err = None, unconsumed = rest\<rparr>
          else if Phase (Status pod) = PodRunning
          then (case scanRunning conf (s, False) (ContainerStatuses (Status pod)) of
                  (s', terminated) \<Rightarrow>
                    if terminated
                    then Some \<lparr>final = s', err = None, unconsumed = rest\<rparr>
                    else watchLoop conf s' rest closed)
          else watchLoop conf s rest closed)"

text \<open>
  \<open>FetchExitCode\<close>, lines 89 to 133. \<open>watch\<close> is what
  \<^verbatim>\<open>c.ClientSet.CoreV1().Pods(namespace).Watch(ctx, ...)\<close> returns: an error, or the
  watch with its result channel.
\<close>

definition FetchExitCode ::
  "string \<Rightarrow> run_state \<Rightarrow> error + ResultChan \<Rightarrow> fetch_result option" where
  "FetchExitCode conf s watch =
     (case watch of
        Inl e \<Rightarrow>
          Some \<lparr>final = s, err = Some (Errorf ''failed to watch Pods'' e), unconsumed = []\<rparr>
      | Inr ch \<Rightarrow> watchLoop conf s (events ch) (closes ch))"

text \<open>
  The events at which the loop of \<open>FetchExitCode\<close> goes on to the next event: the
  object is a pod, its phase is neither Succeeded nor Failed, and when the phase is
  Running no container of the pod is terminated. At every other event the loop stops.
  This predicate is read off the branches of \<open>watchLoop\<close>; the theorems state their
  conditions with it.
\<close>

definition keepsObserving :: "Event \<Rightarrow> bool" where
  "keepsObserving event =
     (case Object event of
        OtherObject \<Rightarrow> False
      | PodObject pod \<Rightarrow>
          Phase (Status pod) \<noteq> PodSucceeded \<and> Phase (Status pod) \<noteq> PodFailed \<and>
          (Phase (Status pod) = PodRunning \<longrightarrow>
             list_all (\<lambda>cs. Terminated (State cs) = None) (ContainerStatuses (Status pod))))"

section \<open>Waiting for the pod and printing its logs\<close>

text \<open>
  The three channels of \<open>streamLogs\<close>. A value of \<open>streamSend\<close> is one send of the
  goroutine \<open>getPodLogs\<close>, named after the channel it goes to. The goroutine is the
  only sender and the channels are unbuffered, so the \<open>select\<close> of the consumer
  receives the sends one at a time, in the order they are made.
\<close>

datatype streamSend = logCh string | errCh error | doneCh bool

text \<open>
  Modelled from the spec: \<open>log.Fatal\<close> of \<open>pkg/log\<close>, which is not among the
  sources, is the fatal-abort path: it ends the process and does not return to its
  caller. So a call of \<open>PrintE2ELogs\<close> ends in one of three ways: it returns an error
  or \<open>nil\<close>, it panics on a nil pointer, or the process is ended by \<open>log.Fatal\<close>
  with the error given to it.
\<close>

datatype outcome = Returned "error option" | NilDereference | Fatal error

text \<open>
  The \<open>select\<close> loop of lines 67 to 80. \<open>Print\<close> is \<open>fmt.Print\<close>, giving the error it
  returns for a line; \<open>out\<close> collects the lines written. The result \<open>None\<close> means that
  the loop blocks for ever: the sender has stopped and sent neither an error nor the
  done signal.
\<close>

fun consume ::
  "(string \<Rightarrow> error option) \<Rightarrow> string list \<Rightarrow> streamSend list \<Rightarrow> (string list \<times> outcome) option" where
  "consume Print out [] = None"
| "consume Print out (errCh e # rest) = Some (out, Fatal e)"
| "consume Print out (logCh logStream # rest) =
     (case Print logStream of
        Some e \<Rightarrow> Some (out, Fatal e)
      | None \<Rightarrow> consume Print (out @ [logStream]) rest)"
| "consume Print out (doneCh b # rest) = Some (out, Returned None)"

text \<open>
  What a call of \<open>PrintE2ELogs\<close> has done when it ends: the number of lookups made
  through the lister, the lines printed, and how it ended.
\<close>

record print_result =
  lookups :: nat
  printed :: "string list"
  outcome :: outcome

text \<open>
  The outer \<open>for\<close> loop of lines 55 to 83, at its iteration \<open>i\<close> (from 0).
  \<open>Get i\<close> is the pod pointer that the lister returns in that iteration, \<open>None\<close> for
  \<open>nil\<close>; the error that comes with it is discarded by the code. Reading
  \<open>pod.Status.Phase\<close> through a nil pointer panics. The result \<open>None\<close> means that the
  call never ends.
\<close>

partial_function (option) pollLoop ::
  "(nat \<Rightarrow> Pod option) \<Rightarrow> (string \<Rightarrow> error option) \<Rightarrow> streamSend list \<Rightarrow> nat
     \<Rightarrow> print_result option" where
  "pollLoop Get Print sends i =
     (case Get i of
        None \<Rightarrow> Some \<lparr>lookups = Suc i, printed = [], outcome = NilDereference\<rparr>
      | Some pod \<Rightarrow>
          if Phase (Status pod) = PodRunning
          then (case consume Print [] sends of
                  None \<Rightarrow> None
                | Some (out, oc) \<Rightarrow> Some \<lparr>lookups = Suc i, printed = out, outcome = oc\<rparr>)
          else pollLoop Get Print sends (Suc i))"

text \<open>
  The surroundings of one call of \<open>PrintE2ELogs\<close>: the error of
  \<open>AddEventHandler\<close>, the lister's answers, \<open>fmt.Print\<close>, and the sends of
  \<open>getPodLogs\<close>.
\<close>

record print_env =
  addEventHandler :: "error option"
  lister :: "nat \<Rightarrow> Pod option"
  fmtPrint :: "string \<Rightarrow> error option"
  podLogs :: "streamSend list"

definition PrintE2ELogs :: "print_env \<Rightarrow> print_result option" where
  "PrintE2ELogs env =
     (case addEventHandler env of
        Some e \<Rightarrow>
          Some \<lparr>lookups = 0, printed = [],
                outcome = Returned (Some (Errorf ''failed to add event handler'' e))\<rparr>
      | None \<Rightarrow> pollLoop (lister env) (fmtPrint env) (podLogs env) 0)"

section \<open>Completing the configuration\<close>

text \<open>
  The fields of \<open>Configuration\<close> that \<open>AddFlags\<close> and \<open>Complete\<close> name. The
  declaration of the type is not among the sources; each field has the type of the flag
  bound to it (\<open>StartupTimeout\<close> is a \<open>time.Duration\<close>, a count of nanoseconds).
\<close>

record Configuration =
  configFile :: string
  Kubeconfig :: string
  Parallel :: int
  Verbosity :: int
  OutputDir :: string
  Skip :: string
  ConformanceImage :: string
  BusyboxImage :: string
  Namespace :: string
  DryRun :: bool
  TestRepoList :: string
  TestRepo :: string
  StartupTimeout :: int
  ExtraArgs :: "string list"
  ExtraGinkgoArgs :: "string list"

text \<open>
  \<open>overwrite\<close> and \<open>overwriteSlice\<close>, lines 106 to 117. \<open>Changed\<close> is
  \<open>fs.Changed\<close> and \<open>zero\<close> is \<open>*empty\<close>, the zero value of the type \<open>T\<close>; the
  result is the new value of \<open>*dst\<close>.
\<close>

definition overwrite :: "(string \<Rightarrow> bool) \<Rightarrow> string \<Rightarrow> 'a \<Rightarrow> 'a \<Rightarrow> 'a \<Rightarrow> 'a" where
  "overwrite Changed flagName zero dst src =
     (if src \<noteq> zero \<and> (Changed flagName \<or> dst = zero) then src else dst)"

definition overwriteSlice :: "(string \<Rightarrow> bool) \<Rightarrow> string \<Rightarrow> 'a list \<Rightarrow> 'a list \<Rightarrow> 'a list" where
  "overwriteSlice Changed flagName dst src =
     (if length src > 0 \<and> (Changed flagName \<or> length dst = 0) then src else dst)"

text \<open>
  What \<open>Complete\<close> calls outside this file: \<open>loadConfiguration\<close> and
  \<open>Validate\<close> of the same package (not among the sources; \<open>Validate\<close> is taken to
  inspect the configuration only), and \<open>os.Getenv\<close>, \<open>os.UserHomeDir\<close> and
  \<open>filepath.Join\<close> of the standard library. \<open>UserHomeDir n\<close> is the answer to the
  call number \<open>n\<close> (from 0) within one run of \<open>Complete\<close>, so that a second attempt
  would be a different call.
\<close>

record os_env =
  loadConfiguration :: "string \<Rightarrow> error + Configuration"
  Getenv :: "string \<Rightarrow> string"
  UserHomeDir :: "nat \<Rightarrow> error + string"
  Join :: "string list \<Rightarrow> string"
  Validate :: "Configuration \<Rightarrow> error option"

text \<open>\<open>strings.HasPrefix\<close>.\<close>

definition HasPrefix :: "string \<Rightarrow> string \<Rightarrow> bool" where
  "HasPrefix s p = (length p \<le> length s \<and> take (length p) s = p)"

text \<open>
  How a call ends: with a value and a \<open>nil\<close> error, with an error, or in the run-time
  panic of a slice expression out of range.
\<close>

datatype 'a go_result = Ok 'a | Failure error | SliceOutOfRange

text \<open>
  Lines 47 to 72 of \<open>Complete\<close>: the configuration that \<open>result\<close> points to, and
  whether \<open>result\<close> and \<open>c\<close> are the same pointer (they are unless a file was loaded).
\<close>

definition loadAndOverwrite ::
  "os_env \<Rightarrow> (string \<Rightarrow> bool) \<Rightarrow> Configuration \<Rightarrow> error + Configuration \<times> bool" where
  "loadAndOverwrite os fs c =
     (if configFile c \<noteq> []
      then (case loadConfiguration os (configFile c) of
              Inl e \<Rightarrow> Inl e
            | Inr loaded \<Rightarrow>
                Inr (loaded
                      \<lparr>Kubeconfig := overwrite fs ''kubeconfig'' [] (Kubeconfig loaded) (Kubeconfig c),
                       Parallel := overwrite fs ''parallel'' 0 (Parallel loaded) (Parallel c),
                       Verbosity := overwrite fs ''verbosity'' 0 (Verbosity loaded) (Verbosity c),
                       OutputDir := overwrite fs ''output-dir'' [] (OutputDir loaded) (OutputDir c),
                       Skip := overwrite fs ''skip'' [] (Skip loaded) (Skip c),
                       ConformanceImage :=
                         overwrite fs ''conformance-image'' []
                           (ConformanceImage loaded) (ConformanceImage c),
                       BusyboxImage :=
                         overwrite fs ''busybox-image'' [] (BusyboxImage loaded) (BusyboxImage c),
                       Namespace := overwrite fs ''namespace'' [] (Namespace loaded) (Namespace c),
                       DryRun := overwrite fs ''dry-run'' False (DryRun loaded) (DryRun c),
                       StartupTimeout :=
                         overwrite fs ''startup-timeout'' 0
                           (StartupTimeout loaded) (StartupTimeout c),
                       TestRepoList :=
                         overwrite fs ''test-repo-list'' [] (TestRepoList loaded) (TestRepoList c),
                       TestRepo := overwrite fs ''test-repo'' [] (TestRepo loaded) (TestRepo c),
                       ExtraArgs :=
                         overwriteSlice fs ''extra-args'' (ExtraArgs loaded) (ExtraArgs c),
                       ExtraGinkgoArgs :=
                         overwriteSlice fs ''extra-ginkgo-args''
                           (ExtraGinkgoArgs loaded) (ExtraGinkgoArgs c)\<rparr>,
                     False))
      else Inr (c, True))"

text \<open>
  Lines 74 to 87: the default of an empty \<open>result.Kubeconfig\<close>. The first component
  counts the calls of \<open>os.UserHomeDir\<close> made.
\<close>

definition defaultKubeconfig :: "os_env \<Rightarrow> Configuration \<Rightarrow> nat \<times> (error + Configuration)" where
  "defaultKubeconfig os result =
     (if Kubeconfig result = []
      then (if Getenv os ''KUBECONFIG'' \<noteq> []
            then (0, Inr (result\<lparr>Kubeconfig := Getenv os ''KUBECONFIG''\<rparr>))
            else (case UserHomeDir os 0 of
                    Inl e \<Rightarrow> (1, Inl (Errorf ''failed to determine home directory'' e))
                  | Inr homeDir \<Rightarrow>
                      (1, Inr (result\<lparr>Kubeconfig := Join os [homeDir, ''.kube'', ''config'']\<rparr>))))
      else (0, Inr result))"

text \<open>
  Lines 90 to 97: a leading \<open>~\<close>. \<open>n\<close> is the number of calls of \<open>os.UserHomeDir\<close>
  made before, \<open>cKubeconfig\<close> the value of \<open>c.Kubeconfig\<close>, which the code slices
  (not \<open>result.Kubeconfig\<close>); \<open>s[1:]\<close> of an empty string panics.
\<close>

definition expandTilde ::
  "os_env \<Rightarrow> nat \<Rightarrow> string \<Rightarrow> Configuration \<Rightarrow> nat \<times> Configuration go_result" where
  "expandTilde os n cKubeconfig result =
     (if HasPrefix (Kubeconfig result) ''~''
      then (case UserHomeDir os n of
              Inl e \<Rightarrow> (Suc n, Failure (Errorf ''failed to determine home directory'' e))
            | Inr homeDir \<Rightarrow>
                if cKubeconfig = [] then (Suc n, SliceOutOfRange)
                else (Suc n, Ok (result\<lparr>Kubeconfig := Join os [homeDir, tl cKubeconfig]\<rparr>)))
      else (n, Ok result))"

text \<open>
  What a call of \<open>Complete\<close> has done when it ends: the number of calls of
  \<open>os.UserHomeDir\<close> it made, and how it ended.
\<close>

record complete_result =
  homeCalls :: nat
  returned :: "Configuration go_result"

text \<open>
  \<open>Complete\<close>, lines 46 to 104. When \<open>result\<close> and \<open>c\<close> are the same pointer, the
  assignment of line 76 or 85 has changed \<open>c.Kubeconfig\<close> as well.
\<close>

definition Complete :: "os_env \<Rightarrow> (string \<Rightarrow> bool) \<Rightarrow> Configuration \<Rightarrow> complete_result" where
  "Complete os fs c =
     (case loadAndOverwrite os fs c of
        Inl e \<Rightarrow> \<lparr>homeCalls = 0, returned = Failure e\<rparr>
      | Inr (result, same) \<Rightarrow>
          (case defaultKubeconfig os result of
             (n, Inl e) \<Rightarrow> \<lparr>homeCalls = n, returned = Failure e\<rparr>
           | (n, Inr result') \<Rightarrow>
               (case expandTilde os n (if same then Kubeconfig result' else Kubeconfig c) result' of
                  (m, Ok result'') \<Rightarrow>
                    (case Validate os result'' of
                       Some e \<Rightarrow>
                         \<lparr>homeCalls = m, returned = Failure (Errorf ''invalid configuration'' e)\<rparr>
                     | None \<Rightarrow> \<lparr>homeCalls = m, returned = Ok result''\<rparr>)
                | (m, Failure e) \<Rightarrow> \<lparr>homeCalls = m, returned = Failure e\<rparr>
                | (m, SliceOutOfRange) \<Rightarrow> \<lparr>homeCalls = m, returned = SliceOutOfRange\<rparr>)))"

section \<open>Concrete pods, events and surroundings\<close>

text \<open>
  The values at which the theorems below are instantiated. \<open>conf0\<close> is a name for
  the conformance container; the constant \<open>common.ConformanceContainer\<close> is a
  parameter of the model, and no theorem depends on its value.
\<close>

definition mkStatus :: "string \<Rightarrow> ContainerStateTerminated option \<Rightarrow> ContainerStatus" where
  "mkStatus n t = \<lparr>Name = n, State = \<lparr>Terminated = t\<rparr>\<rparr>"

definition mkPod :: "PodPhase \<Rightarrow> ContainerStatus list \<Rightarrow> Pod" where
  "mkPod ph css = \<lparr>Status = \<lparr>Phase = ph, ContainerStatuses = css\<rparr>\<rparr>"

definition podEvent :: "Pod \<Rightarrow> Event" where
  "podEvent pod = \<lparr>Type = Modified, Object = PodObject pod\<rparr>"

definition exited :: "32 word \<Rightarrow> ContainerStateTerminated option" where
  "exited code = Some \<lparr>TerminatedExitCode = code\<rparr>"

definition conf0 :: string where
  "conf0 = ''conformance-container''"

definition s0 :: run_state where
  "s0 = \<lparr>client = \<lparr>ExitCode = 0\<rparr>, stored = []\<rparr>"

definition pendingPod :: Pod where
  "pendingPod = mkPod PodPending []"

definition runningPod :: Pod where
  "runningPod = mkPod PodRunning [mkStatus conf0 None, mkStatus ''output-container'' None]"

definition sidecarDonePod :: Pod where
  "sidecarDonePod = mkPod PodRunning [mkStatus conf0 None, mkStatus ''output-container'' (exited 0)]"

definition failedPod :: Pod where
  "failedPod = mkPod PodFailed [mkStatus conf0 (exited 2), mkStatus ''output-container'' (exited 0)]"

definition statusEvent :: Event where
  "statusEvent = \<lparr>Type = Error, Object = OtherObject\<rparr>"

definition succeededPod :: Pod where
  "succeededPod = mkPod PodSucceeded [mkStatus conf0 (exited 0), mkStatus ''output-container'' (exited 0)]"

definition crashedPod :: Pod where
  "crashedPod = mkPod PodRunning [mkStatus ''output-container'' None, mkStatus conf0 (exited 255)]"

definition outputGonePod :: Pod where
  "outputGonePod = mkPod PodRunning [mkStatus ''output-container'' (exited 137), mkStatus conf0 None]"

definition quietPrint :: "string \<Rightarrow> error option" where
  "quietPrint l = None"

definition neverFound :: "nat \<Rightarrow> Pod option" where
  "neverFound i = None"

definition vanishingPod :: "nat \<Rightarrow> Pod option" where
  "vanishingPod i = (if i < 2 then Some pendingPod else None)"

definition pendingForever :: "nat \<Rightarrow> Pod option" where
  "pendingForever i = Some pendingPod"

definition startsThird :: "nat \<Rightarrow> Pod option" where
  "startsThird i = (if i < 2 then Some pendingPod else Some runningPod)"

definition notFoundEnv :: print_env where
  "notFoundEnv =
     \<lparr>addEventHandler = None, lister = neverFound, fmtPrint = quietPrint,
      podLogs = [doneCh True]\<rparr>"

definition vanishingEnv :: print_env where
  "vanishingEnv =
     \<lparr>addEventHandler = None, lister = vanishingPod, fmtPrint = quietPrint, podLogs = []\<rparr>"

definition stuckEnv :: print_env where
  "stuckEnv =
     \<lparr>addEventHandler = None, lister = pendingForever, fmtPrint = quietPrint,
      podLogs = [doneCh True]\<rparr>"

definition cleanEnv :: print_env where
  "cleanEnv =
     \<lparr>addEventHandler = None, lister = startsThird, fmtPrint = quietPrint,
      podLogs = [logCh ''a'', logCh ''b'', doneCh True]\<rparr>"

definition brokenEnv :: print_env where
  "brokenEnv =
     \<lparr>addEventHandler = None, lister = startsThird, fmtPrint = quietPrint,
      podLogs = [logCh ''x'', errCh (Err ''connection reset''), doneCh True]\<rparr>"

definition defaultConfiguration :: Configuration where
  "defaultConfiguration =
     \<lparr>configFile = [], Kubeconfig = [], Parallel = 1, Verbosity = 4, OutputDir = ''.'',
      Skip = [], ConformanceImage = [], BusyboxImage = [], Namespace = ''conformance'',
      DryRun = False, TestRepoList = [], TestRepo = [], StartupTimeout = 300000000000,
      ExtraArgs = [], ExtraGinkgoArgs = []\<rparr>"

definition noFlags :: "string \<Rightarrow> bool" where
  "noFlags flagName = False"

text \<open>A stand-in for \<open>filepath.Join\<close>: the elements that are not empty, with slashes
  between them.\<close>

fun joinElems :: "string list \<Rightarrow> string" where
  "joinElems [] = []"
| "joinElems (x # xs) =
     (if x = [] then joinElems xs
      else if joinElems xs = [] then x
      else x @ ''/'' @ joinElems xs)"

definition noFile :: "string \<Rightarrow> error + Configuration" where
  "noFile name = Inl (Err ''no such file or directory'')"

definition unsetEnv :: "string \<Rightarrow> string" where
  "unsetEnv name = []"

definition homeUndefined :: "nat \<Rightarrow> error + string" where
  "homeUndefined n = Inl (Err ''$HOME is not defined'')"

definition homeOfUser :: "nat \<Rightarrow> error + string" where
  "homeOfUser n = Inr ''/home/user''"

definition accepts :: "Configuration \<Rightarrow> error option" where
  "accepts cfg = None"

definition noHomeOs :: os_env where
  "noHomeOs =
     \<lparr>loadConfiguration = noFile, Getenv = unsetEnv, UserHomeDir = homeUndefined,
      Join = joinElems, Validate = accepts\<rparr>"

definition homeOs :: os_env where
  "homeOs =
     \<lparr>loadConfiguration = noFile, Getenv = unsetEnv, UserHomeDir = homeOfUser,
      Join = joinElems, Validate = accepts\<rparr>"

section \<open>The termination watcher\<close>

lemmas example_defs = mkStatus_def mkPod_def podEvent_def exited_def conf0_def s0_def
  pendingPod_def runningPod_def sidecarDonePod_def failedPod_def

lemma scanRunning_fst: "fst (scanRunning conf (s, t) css) = scanFinished conf s css"
proof (induction css arbitrary: s t)
  case Nil
  show ?case by simp
next
  case (Cons a css)
  show ?case
    by (cases "Terminated (State a)") (simp_all add: Cons.IH)
qed

lemma scanRunning_snd:
  "snd (scanRunning conf (s, t) css) = (t \<or> (\<exists>cs\<in>set css. Terminated (State cs) \<noteq> None))"
proof (induction css arbitrary: s t)
  case Nil
  show ?case by simp
next
  case (Cons a css)
  show ?case
    by (cases "Terminated (State a)") (simp_all add: Cons.IH)
qed

lemma scanRunning_eq:
  "scanRunning conf (s, t) css =
     (scanFinished conf s css, t \<or> (\<exists>cs\<in>set css. Terminated (State cs) \<noteq> None))"
  by (rule prod_eqI) (simp_all add: scanRunning_fst scanRunning_snd)

lemma scanFinished_untouched:
  "(\<forall>cs\<in>set css. Name cs = conf \<longrightarrow> Terminated (State cs) = None) \<Longrightarrow> scanFinished conf s css = s"
proof (induction css)
  case Nil
  show ?case by simp
next
  case (Cons a css)
  then show ?case
    by (cases "Terminated (State a)") simp_all
qed

lemma scanFinished_unique:
  assumes "distinct (map Name css)" "cs \<in> set css" "Name cs = conf"
    "Terminated (State cs) = Some t"
  shows "scanFinished conf s css = setExitCode (sint (TerminatedExitCode t)) s"
  using assms(1,2)
proof (induction css)
  case Nil
  then show ?case by simp
next
  case (Cons a css)
  from Cons.prems(1) have fresh: "Name a \<notin> Name ` set css" and d: "distinct (map Name css)"
    by simp_all
  show ?case
  proof (cases "a = cs")
    case True
    have "\<forall>c\<in>set css. Name c = conf \<longrightarrow> Terminated (State c) = None"
    proof (intro ballI impI)
      fix c assume "c \<in> set css" "Name c = conf"
      then have "Name a \<in> Name ` set css" using True assms(3) by (intro image_eqI [of _ _ c]) simp_all
      with fresh show "Terminated (State c) = None" by simp
    qed
    then have "scanFinished conf (setExitCode (sint (TerminatedExitCode t)) s) css
        = setExitCode (sint (TerminatedExitCode t)) s"
      by (rule scanFinished_untouched)
    with True assms(3,4) show ?thesis by simp
  next
    case False
    with Cons.prems(2) have in_rest: "cs \<in> set css" by simp
    have other: "Name a \<noteq> conf"
    proof
      assume "Name a = conf"
      then have "Name a \<in> Name ` set css" using in_rest assms(3) by (intro image_eqI [of _ _ cs]) simp_all
      with fresh show False by simp
    qed
    from Cons.IH [OF d in_rest]
    have IH: "scanFinished conf s css = setExitCode (sint (TerminatedExitCode t)) s" .
    show ?thesis
      by (cases "Terminated (State a)") (simp_all add: other IH)
  qed
qed

lemma keepsObserving_step:
  assumes k: "keepsObserving ev"
  shows "watchLoop conf s (ev # rest) cl = watchLoop conf s rest cl"
proof (cases "Object ev")
  case OtherObject
  with k show ?thesis by (simp add: keepsObserving_def)
next
  case (PodObject pod)
  show ?thesis
  proof (cases "Phase (Status pod) = PodRunning")
    case True
    with k PodObject have quiet: "\<forall>cs\<in>set (ContainerStatuses (Status pod)). Terminated (State cs) = None"
      by (simp add: keepsObserving_def list_all_iff)
    then have "scanFinished conf s (ContainerStatuses (Status pod)) = s"
      by (intro scanFinished_untouched) simp
    with quiet have "scanRunning conf (s, False) (ContainerStatuses (Status pod)) = (s, False)"
      by (simp add: scanRunning_eq)
    with True PodObject show ?thesis by simp
  next
    case False
    with k PodObject show ?thesis by (simp add: keepsObserving_def)
  qed
qed

lemma watchLoop_skip:
  "\<forall>ev\<in>set pre. keepsObserving ev \<Longrightarrow> watchLoop conf s (pre @ rest) cl = watchLoop conf s rest cl"
  by (induction pre) (simp_all add: keepsObserving_step del: watchLoop.simps)

lemma watchLoop_stop_pod:
  assumes "Phase (Status pod) = PodRunning \<or> Phase (Status pod) = PodSucceeded \<or> Phase (Status pod) = PodFailed"
    and "cs \<in> set (ContainerStatuses (Status pod))" "Terminated (State cs) \<noteq> None"
  shows "watchLoop conf s (\<lparr>Type = ty, Object = PodObject pod\<rparr> # rest) cl =
    Some \<lparr>final = scanFinished conf s (ContainerStatuses (Status pod)), err = None, unconsumed = rest\<rparr>"
proof -
  from assms(2,3) have "\<exists>c\<in>set (ContainerStatuses (Status pod)). Terminated (State c) \<noteq> None"
    by blast
  then have "scanRunning conf (s, False) (ContainerStatuses (Status pod)) =
      (scanFinished conf s (ContainerStatuses (Status pod)), True)"
    by (simp add: scanRunning_eq)
  with assms(1) show ?thesis by auto
qed

text \<open>
  C5. If the first event of the watch carries an object that is not a pod,
  \<open>FetchExitCode\<close> stores the exit code \<open>-1\<close> (one assignment), returns \<open>nil\<close>, and
  receives none of the later events, whatever they are and whether or not the channel
  is ever closed.
\<close>

theorem FetchExitCode_undecodable_first:
  "FetchExitCode conf s (Inr \<lparr>events = \<lparr>Type = ty, Object = OtherObject\<rparr> # rest, closes = cl\<rparr>)
     = Some \<lparr>final = s\<lparr>client := (client s)\<lparr>ExitCode := - 1\<rparr>, stored := stored s @ [- 1]\<rparr>,
             err = None, unconsumed = rest\<rparr>"
  by (simp add: FetchExitCode_def setExitCode_def)

text \<open>
  C1, as amended. Let the watch deliver first events at which the code keeps observing
  (\<open>keepsObserving\<close>: a pod that is neither Succeeded nor Failed and, when Running,
  has no terminated container), and then a pod in phase Running, Succeeded or Failed
  whose container names are distinct and whose conformance container is terminated with
  exit code \<open>E\<close>. Then \<open>FetchExitCode\<close> stores \<open>E\<close> with exactly one assignment,
  returns \<open>nil\<close>, and leaves every later event in the channel, however many events
  came first and whether or not the channel is ever closed.
\<close>

theorem FetchExitCode_records_exit_code:
  assumes "\<forall>ev\<in>set pre. keepsObserving ev"
    and "Phase (Status pod) = PodRunning \<or> Phase (Status pod) = PodSucceeded
           \<or> Phase (Status pod) = PodFailed"
    and "distinct (map Name (ContainerStatuses (Status pod)))"
    and "cs \<in> set (ContainerStatuses (Status pod))"
    and "Name cs = conf"
    and "Terminated (State cs) = Some t"
  shows "FetchExitCode conf s
           (Inr \<lparr>events = pre @ \<lparr>Type = ty, Object = PodObject pod\<rparr> # post, closes = cl\<rparr>)
         = Some \<lparr>final = s\<lparr>client := (client s)\<lparr>ExitCode := sint (TerminatedExitCode t)\<rparr>,
                              stored := stored s @ [sint (TerminatedExitCode t)]\<rparr>,
                 err = None, unconsumed = post\<rparr>"
proof -
  have "Terminated (State cs) \<noteq> None" using assms(6) by simp
  then have "watchLoop conf s (\<lparr>Type = ty, Object = PodObject pod\<rparr> # post) cl =
      Some \<lparr>final = scanFinished conf s (ContainerStatuses (Status pod)), err = None,
             unconsumed = post\<rparr>"
    using assms(2,4) by (intro watchLoop_stop_pod)
  moreover have "scanFinished conf s (ContainerStatuses (Status pod))
      = setExitCode (sint (TerminatedExitCode t)) s"
    using assms(3-6) by (rule scanFinished_unique)
  ultimately show ?thesis
    using watchLoop_skip [OF assms(1)]
    by (simp add: FetchExitCode_def setExitCode_def del: watchLoop.simps)
qed

text \<open>An instance: two snapshots pass by, the third one is Failed with exit code 2.\<close>

theorem FetchExitCode_records_exit_code_witness:
  "keepsObserving (podEvent pendingPod) \<and> keepsObserving (podEvent runningPod) \<and>
   Phase (Status failedPod) = PodFailed \<and>
   distinct (map Name (ContainerStatuses (Status failedPod))) \<and>
   mkStatus conf0 (exited 2) \<in> set (ContainerStatuses (Status failedPod)) \<and>
   FetchExitCode conf0 s0
     (Inr \<lparr>events = [podEvent pendingPod, podEvent runningPod, podEvent failedPod,
                      podEvent pendingPod], closes = False\<rparr>)
   = Some \<lparr>final = \<lparr>client = \<lparr>ExitCode = 2\<rparr>, stored = [2]\<rparr>, err = None,
           unconsumed = [podEvent pendingPod]\<rparr>"
proof -
  have h1: "\<forall>ev\<in>set [podEvent pendingPod, podEvent runningPod]. keepsObserving ev"
    by (simp add: keepsObserving_def example_defs)
  have h2: "Phase (Status failedPod) = PodRunning \<or> Phase (Status failedPod) = PodSucceeded
           \<or> Phase (Status failedPod) = PodFailed"
    by (simp add: example_defs)
  have h3: "distinct (map Name (ContainerStatuses (Status failedPod)))"
    by (simp add: example_defs)
  have h4: "mkStatus conf0 (exited 2) \<in> set (ContainerStatuses (Status failedPod))"
    by (simp add: failedPod_def mkPod_def)
  have h5: "Name (mkStatus conf0 (exited 2)) = conf0" by (simp add: mkStatus_def)
  have h6: "Terminated (State (mkStatus conf0 (exited 2))) = Some \<lparr>TerminatedExitCode = 2\<rparr>"
    by (simp add: mkStatus_def exited_def)
  from FetchExitCode_records_exit_code [OF h1 h2 h3 h4 h5 h6, of s0 Modified "[podEvent pendingPod]" False]
  have "FetchExitCode conf0 s0
     (Inr \<lparr>events = [podEvent pendingPod, podEvent runningPod, podEvent failedPod,
                      podEvent pendingPod], closes = False\<rparr>)
   = Some \<lparr>final = \<lparr>client = \<lparr>ExitCode = 2\<rparr>, stored = [2]\<rparr>, err = None,
           unconsumed = [podEvent pendingPod]\<rparr>"
    by (simp add: s0_def podEvent_def)
  moreover have "keepsObserving (podEvent pendingPod)" "keepsObserving (podEvent runningPod)"
    using h1 by simp_all
  moreover have "Phase (Status failedPod) = PodFailed" by (simp add: failedPod_def mkPod_def)
  ultimately show ?thesis using h3 h4 by (intro conjI)
qed

text \<open>
  The claim without the amendment fails: the output container of a Running pod
  terminates first, the loop stops there, and the later snapshot in which the
  conformance container reports exit code 2 is never received. The exit code stays 0.
\<close>

theorem FetchExitCode_records_exit_code_counterexample:
  "FetchExitCode conf0 s0
     (Inr \<lparr>events = [podEvent sidecarDonePod, podEvent failedPod], closes = True\<rparr>)
   = Some \<lparr>final = s0, err = None, unconsumed = [podEvent failedPod]\<rparr>"
  by (simp add: FetchExitCode_def example_defs)

lemma watchLoop_err_None: "watchLoop conf s evs cl = Some r \<Longrightarrow> err r = None"
proof (induction evs arbitrary: s)
  case Nil
  then show ?case by (cases cl) auto
next
  case (Cons ev evs)
  show ?case
  proof (cases "Object ev")
    case OtherObject
    with Cons.prems show ?thesis by auto
  next
    case (PodObject pod)
    obtain s' t where sr: "scanRunning conf (s, False) (ContainerStatuses (Status pod)) = (s', t)"
      by (cases "scanRunning conf (s, False) (ContainerStatuses (Status pod))")
    show ?thesis
    proof (cases "Phase (Status pod) = PodSucceeded \<or> Phase (Status pod) = PodFailed")
      case True
      with Cons.prems PodObject show ?thesis by auto
    next
      case notFinished: False
      show ?thesis
      proof (cases "Phase (Status pod) = PodRunning")
        case True
        show ?thesis
        proof (cases t)
          case True
          with Cons.prems PodObject notFinished \<open>Phase (Status pod) = PodRunning\<close> sr
          show ?thesis by auto
        next
          case False
          with Cons.prems PodObject notFinished \<open>Phase (Status pod) = PodRunning\<close> sr
          have "watchLoop conf s' evs cl = Some r" by simp
          then show ?thesis by (rule Cons.IH)
        qed
      next
        case False
        with Cons.prems PodObject notFinished have "watchLoop conf s evs cl = Some r" by simp
        then show ?thesis by (rule Cons.IH)
      qed
    qed
  qed
qed

lemma stopping_event:
  assumes "\<not> keepsObserving ev"
  shows "\<exists>s'. watchLoop conf s (ev # rest) cl = Some \<lparr>final = s', err = None, unconsumed = rest\<rparr>"
proof (cases "Object ev")
  case OtherObject
  then show ?thesis by simp
next
  case (PodObject pod)
  show ?thesis
  proof (cases "Phase (Status pod) = PodSucceeded \<or> Phase (Status pod) = PodFailed")
    case True
    with PodObject show ?thesis by auto
  next
    case False
    with assms PodObject have run: "Phase (Status pod) = PodRunning"
      and "\<exists>c\<in>set (ContainerStatuses (Status pod)). Terminated (State c) \<noteq> None"
      by (auto simp: keepsObserving_def list_all_iff)
    then have "scanRunning conf (s, False) (ContainerStatuses (Status pod)) =
      (scanFinished conf s (ContainerStatuses (Status pod)), True)"
      by (simp add: scanRunning_eq)
    with run PodObject show ?thesis by simp
  qed
qed

lemma watchLoop_returns:
  "cl \<or> (\<exists>ev\<in>set evs. \<not> keepsObserving ev) \<Longrightarrow> watchLoop conf s evs cl \<noteq> None"
proof (induction evs)
  case Nil
  then show ?case by simp
next
  case (Cons ev evs)
  show ?case
  proof (cases "keepsObserving ev")
    case True
    with Cons.prems have "cl \<or> (\<exists>ev\<in>set evs. \<not> keepsObserving ev)" by simp
    then have "watchLoop conf s evs cl \<noteq> None" by (rule Cons.IH)
    with True show ?thesis by (simp add: keepsObserving_step del: watchLoop.simps)
  next
    case False
    from stopping_event [OF this, of conf s evs cl] show ?thesis by auto
  qed
qed

text \<open>
  C2, as amended. \<open>FetchExitCode\<close> returns an error in one case only: when the watch
  cannot be set up, it returns that error wrapped as \<open>failed to watch Pods\<close> and
  leaves the exit code alone. With the watch set up,
  \<^item> whenever it returns, it returns \<open>nil\<close>;
  \<^item> it does return when the channel is closed at some time or delivers an event at
    which the loop stops;
  \<^item> when the first event at which the loop stops carries an object that is not a pod,
    the exit code it stores is \<open>-1\<close>.
\<close>

theorem FetchExitCode_error_only_from_watch_setup:
  "FetchExitCode conf s (Inl e)
     = Some \<lparr>final = s, err = Some (Errorf ''failed to watch Pods'' e), unconsumed = []\<rparr>
   \<and> (\<forall>r. FetchExitCode conf s (Inr ch) = Some r \<longrightarrow> err r = None)
   \<and> (closes ch \<or> (\<exists>ev\<in>set (events ch). \<not> keepsObserving ev)
        \<longrightarrow> FetchExitCode conf s (Inr ch) \<noteq> None)
   \<and> (\<forall>pre ev post.
         events ch = pre @ ev # post \<and> (\<forall>p\<in>set pre. keepsObserving p) \<and> Object ev = OtherObject
         \<longrightarrow> FetchExitCode conf s (Inr ch)
               = Some \<lparr>final = s\<lparr>client := (client s)\<lparr>ExitCode := - 1\<rparr>,
                                    stored := stored s @ [- 1]\<rparr>,
                       err = None, unconsumed = post\<rparr>)"
proof (intro conjI allI impI)
  show "FetchExitCode conf s (Inl e)
     = Some \<lparr>final = s, err = Some (Errorf ''failed to watch Pods'' e), unconsumed = []\<rparr>"
    by (simp add: FetchExitCode_def)
next
  fix r assume "FetchExitCode conf s (Inr ch) = Some r"
  then have "watchLoop conf s (events ch) (closes ch) = Some r" by (simp add: FetchExitCode_def)
  then show "err r = None" by (rule watchLoop_err_None)
next
  assume "closes ch \<or> (\<exists>ev\<in>set (events ch). \<not> keepsObserving ev)"
  then have "watchLoop conf s (events ch) (closes ch) \<noteq> None" by (rule watchLoop_returns)
  then show "FetchExitCode conf s (Inr ch) \<noteq> None" by (simp add: FetchExitCode_def)
next
  fix pre ev post
  assume a: "events ch = pre @ ev # post \<and> (\<forall>p\<in>set pre. keepsObserving p) \<and> Object ev = OtherObject"
  then have "watchLoop conf s (events ch) (closes ch) = watchLoop conf s (ev # post) (closes ch)"
    using watchLoop_skip [of pre conf s "ev # post" "closes ch"] by simp
  also have "\<dots> = Some \<lparr>final = setExitCode (- 1) s, err = None, unconsumed = post\<rparr>"
    using a by simp
  finally show "FetchExitCode conf s (Inr ch)
               = Some \<lparr>final = s\<lparr>client := (client s)\<lparr>ExitCode := - 1\<rparr>,
                                    stored := stored s @ [- 1]\<rparr>,
                       err = None, unconsumed = post\<rparr>"
    by (simp add: FetchExitCode_def setExitCode_def)
qed

theorem FetchExitCode_error_only_from_watch_setup_witness:
  "closes \<lparr>events = [podEvent pendingPod, statusEvent, podEvent failedPod], closes = True\<rparr> \<and>
   keepsObserving (podEvent pendingPod) \<and> Object statusEvent = OtherObject \<and>
   FetchExitCode conf0 s0
     (Inr \<lparr>events = [podEvent pendingPod, statusEvent, podEvent failedPod], closes = True\<rparr>)
   = Some \<lparr>final = \<lparr>client = \<lparr>ExitCode = - 1\<rparr>, stored = [- 1]\<rparr>, err = None,
           unconsumed = [podEvent failedPod]\<rparr> \<and>
   err (the (FetchExitCode conf0 s0
     (Inr \<lparr>events = [podEvent pendingPod, statusEvent, podEvent failedPod], closes = True\<rparr>))) = None"
proof -
  let ?ch = "\<lparr>events = [podEvent pendingPod, statusEvent, podEvent failedPod], closes = True\<rparr>"
  have h: "\<forall>p\<in>set [podEvent pendingPod]. keepsObserving p"
    by (simp add: keepsObserving_def example_defs)
  have o: "Object statusEvent = OtherObject" by (simp add: statusEvent_def)
  have e: "events ?ch = [podEvent pendingPod] @ statusEvent # [podEvent failedPod]" by simp
  from FetchExitCode_error_only_from_watch_setup [of conf0 s0 "Err ''unused''" ?ch]
  have all: "\<forall>pre ev post.
         events ?ch = pre @ ev # post \<and> (\<forall>p\<in>set pre. keepsObserving p) \<and> Object ev = OtherObject
         \<longrightarrow> FetchExitCode conf0 s0 (Inr ?ch)
               = Some \<lparr>final = s0\<lparr>client := (client s0)\<lparr>ExitCode := - 1\<rparr>,
                                    stored := stored s0 @ [- 1]\<rparr>,
                       err = None, unconsumed = post\<rparr>"
    by (elim conjE)
  from all e h o have "FetchExitCode conf0 s0 (Inr ?ch)
               = Some \<lparr>final = s0\<lparr>client := (client s0)\<lparr>ExitCode := - 1\<rparr>,
                                    stored := stored s0 @ [- 1]\<rparr>,
                       err = None, unconsumed = [podEvent failedPod]\<rparr>"
    by blast
  then have r: "FetchExitCode conf0 s0 (Inr ?ch)
   = Some \<lparr>final = \<lparr>client = \<lparr>ExitCode = - 1\<rparr>, stored = [- 1]\<rparr>, err = None,
           unconsumed = [podEvent failedPod]\<rparr>"
    by (simp add: s0_def)
  have k: "keepsObserving (podEvent pendingPod)" using h by simp
  have c: "closes ?ch" by simp
  have n: "err (the (FetchExitCode conf0 s0 (Inr ?ch))) = None" by (simp add: r)
  from c k o r n show ?thesis by (intro conjI)
qed

text \<open>The claim without the amendment fails: a watch that cannot be set up is an error
  for the caller.\<close>

theorem FetchExitCode_error_only_from_watch_setup_counterexample:
  "FetchExitCode conf0 s0 (Inl (Err ''connection refused''))
   = Some \<lparr>final = s0, err = Some (Errorf ''failed to watch Pods'' (Err ''connection refused'')),
           unconsumed = []\<rparr>"
  by (simp add: FetchExitCode_def)

text \<open>
  C3. The claim holds of the intended behaviour, not of the code: when the channel is
  closed after snapshots at which the loop keeps observing, \<open>FetchExitCode\<close> returns
  \<open>nil\<close> and makes no assignment, so the exit code keeps its earlier value (here 0)
  and is not \<open>-1\<close>.
\<close>

theorem FetchExitCode_stream_closed_keeps_exit_code:
  "FetchExitCode conf0 s0 (Inr \<lparr>events = [podEvent pendingPod, podEvent runningPod], closes = True\<rparr>)
   = Some \<lparr>final = \<lparr>client = \<lparr>ExitCode = 0\<rparr>, stored = []\<rparr>, err = None, unconsumed = []\<rparr>"
  by (simp add: FetchExitCode_def example_defs)

text \<open>
  C4. When a delivered snapshot is in phase Running, its container names are distinct
  and its conformance container is terminated with exit code \<open>E\<close>, \<open>FetchExitCode\<close>
  stores \<open>E\<close>, returns \<open>nil\<close> and receives nothing more: every later event, a
  Succeeded or Failed snapshot included, stays in the channel, and the call does not
  wait for the channel to deliver or to be closed.
\<close>

theorem FetchExitCode_running_container_terminated:
  assumes "Phase (Status pod) = PodRunning"
    and "distinct (map Name (ContainerStatuses (Status pod)))"
    and "cs \<in> set (ContainerStatuses (Status pod))"
    and "Name cs = conf"
    and "Terminated (State cs) = Some t"
  shows "FetchExitCode conf s
           (Inr \<lparr>events = \<lparr>Type = ty, Object = PodObject pod\<rparr> # rest, closes = cl\<rparr>)
         = Some \<lparr>final = s\<lparr>client := (client s)\<lparr>ExitCode := sint (TerminatedExitCode t)\<rparr>,
                              stored := stored s @ [sint (TerminatedExitCode t)]\<rparr>,
                 err = None, unconsumed = rest\<rparr>"
proof -
  have "Terminated (State cs) \<noteq> None" using assms(5) by simp
  with assms(1,3) have "watchLoop conf s (\<lparr>Type = ty, Object = PodObject pod\<rparr> # rest) cl =
      Some \<lparr>final = scanFinished conf s (ContainerStatuses (Status pod)), err = None,
             unconsumed = rest\<rparr>"
    by (intro watchLoop_stop_pod) simp_all
  moreover have "scanFinished conf s (ContainerStatuses (Status pod))
      = setExitCode (sint (TerminatedExitCode t)) s"
    using assms(2-5) by (rule scanFinished_unique)
  ultimately show ?thesis
    by (simp add: FetchExitCode_def setExitCode_def del: watchLoop.simps)
qed

theorem FetchExitCode_running_container_terminated_witness:
  "Phase (Status crashedPod) = PodRunning \<and>
   distinct (map Name (ContainerStatuses (Status crashedPod))) \<and>
   mkStatus conf0 (exited 255) \<in> set (ContainerStatuses (Status crashedPod)) \<and>
   FetchExitCode conf0 s0
     (Inr \<lparr>events = [podEvent crashedPod, podEvent succeededPod], closes = False\<rparr>)
   = Some \<lparr>final = \<lparr>client = \<lparr>ExitCode = 255\<rparr>, stored = [255]\<rparr>, err = None,
           unconsumed = [podEvent succeededPod]\<rparr>"
proof -
  have h1: "Phase (Status crashedPod) = PodRunning" by (simp add: crashedPod_def mkPod_def)
  have h2: "distinct (map Name (ContainerStatuses (Status crashedPod)))"
    by (simp add: crashedPod_def example_defs)
  have h3: "mkStatus conf0 (exited 255) \<in> set (ContainerStatuses (Status crashedPod))"
    by (simp add: crashedPod_def mkPod_def)
  have h4: "Name (mkStatus conf0 (exited 255)) = conf0" by (simp add: mkStatus_def)
  have h5: "Terminated (State (mkStatus conf0 (exited 255))) = Some \<lparr>TerminatedExitCode = 255\<rparr>"
    by (simp add: mkStatus_def exited_def)
  from FetchExitCode_running_container_terminated
         [OF h1 h2 h3 h4 h5, of s0 Modified "[podEvent succeededPod]" False]
  have "FetchExitCode conf0 s0
     (Inr \<lparr>events = [podEvent crashedPod, podEvent succeededPod], closes = False\<rparr>)
   = Some \<lparr>final = \<lparr>client = \<lparr>ExitCode = 255\<rparr>, stored = [255]\<rparr>, err = None,
           unconsumed = [podEvent succeededPod]\<rparr>"
    by (simp add: s0_def podEvent_def)
  with h1 h2 h3 show ?thesis by (intro conjI)
qed

text \<open>
  C10. When a delivered snapshot is in phase Running and any of its containers is
  terminated, \<open>FetchExitCode\<close> leaves the loop at that snapshot and returns \<open>nil\<close>.
  When no terminated container of the snapshot is the conformance container, the client
  is as it was before: the exit code keeps its earlier value and nothing is assigned.
\<close>

theorem FetchExitCode_running_any_container_terminated:
  assumes "Phase (Status pod) = PodRunning"
    and "cs \<in> set (ContainerStatuses (Status pod))"
    and "Terminated (State cs) \<noteq> None"
  shows "\<exists>s'. FetchExitCode conf s
                (Inr \<lparr>events = \<lparr>Type = ty, Object = PodObject pod\<rparr> # rest, closes = cl\<rparr>)
              = Some \<lparr>final = s', err = None, unconsumed = rest\<rparr>
            \<and> ((\<forall>c\<in>set (ContainerStatuses (Status pod)).
                   Name c = conf \<longrightarrow> Terminated (State c) = None) \<longrightarrow> s' = s)"
proof -
  from assms have "watchLoop conf s (\<lparr>Type = ty, Object = PodObject pod\<rparr> # rest) cl =
      Some \<lparr>final = scanFinished conf s (ContainerStatuses (Status pod)), err = None,
             unconsumed = rest\<rparr>"
    by (intro watchLoop_stop_pod) simp_all
  then have "FetchExitCode conf s
                (Inr \<lparr>events = \<lparr>Type = ty, Object = PodObject pod\<rparr> # rest, closes = cl\<rparr>)
      = Some \<lparr>final = scanFinished conf s (ContainerStatuses (Status pod)), err = None,
             unconsumed = rest\<rparr>"
    by (simp add: FetchExitCode_def del: watchLoop.simps)
  moreover have "(\<forall>c\<in>set (ContainerStatuses (Status pod)).
       Name c = conf \<longrightarrow> Terminated (State c) = None)
     \<longrightarrow> scanFinished conf s (ContainerStatuses (Status pod)) = s"
    using scanFinished_untouched [of "ContainerStatuses (Status pod)" conf s] by blast
  ultimately show ?thesis by blast
qed

theorem FetchExitCode_running_any_container_terminated_witness:
  "Phase (Status outputGonePod) = PodRunning \<and>
   mkStatus ''output-container'' (exited 137) \<in> set (ContainerStatuses (Status outputGonePod)) \<and>
   Terminated (State (mkStatus ''output-container'' (exited 137))) \<noteq> None \<and>
   list_all (\<lambda>c. Name c \<noteq> conf0 \<or> Terminated (State c) = None)
     (ContainerStatuses (Status outputGonePod)) \<and>
   FetchExitCode conf0 s0
     (Inr \<lparr>events = [podEvent outputGonePod, podEvent succeededPod], closes = False\<rparr>)
   = Some \<lparr>final = s0, err = None, unconsumed = [podEvent succeededPod]\<rparr>"
proof -
  have h1: "Phase (Status outputGonePod) = PodRunning" by (simp add: outputGonePod_def mkPod_def)
  have h2: "mkStatus ''output-container'' (exited 137) \<in> set (ContainerStatuses (Status outputGonePod))"
    by (simp add: outputGonePod_def mkPod_def)
  have h3: "Terminated (State (mkStatus ''output-container'' (exited 137))) \<noteq> None"
    by (simp add: mkStatus_def exited_def)
  have h4: "\<forall>c\<in>set (ContainerStatuses (Status outputGonePod)).
      Name c = conf0 \<longrightarrow> Terminated (State c) = None"
    by (simp add: outputGonePod_def example_defs)
  from FetchExitCode_running_any_container_terminated
         [OF h1 h2 h3, of conf0 s0 Modified "[podEvent succeededPod]" False] h4
  have "FetchExitCode conf0 s0
     (Inr \<lparr>events = [podEvent outputGonePod, podEvent succeededPod], closes = False\<rparr>)
   = Some \<lparr>final = s0, err = None, unconsumed = [podEvent succeededPod]\<rparr>"
    unfolding podEvent_def [of outputGonePod] by auto
  moreover have "list_all (\<lambda>c. Name c \<noteq> conf0 \<or> Terminated (State c) = None)
     (ContainerStatuses (Status outputGonePod))"
    by (simp add: outputGonePod_def example_defs)
  ultimately show ?thesis using h1 h2 h3 by (intro conjI)
qed

section \<open>The readiness poll and the log consumer\<close>

lemma pollLoop_Some_reaches:
  assumes returns: "pollLoop G P sends j = Some y"
  shows "\<exists>k\<ge>j. G k = None \<or> (\<exists>p. G k = Some p \<and> Phase (Status p) = PodRunning)"
proof (induction G P sends j y rule: pollLoop.raw_induct)
  case (1 f Get Print sends i r)
  show ?case
  proof (cases "Get i")
    case None
    then show ?thesis by blast
  next
    case (Some pod)
    show ?thesis
    proof (cases "Phase (Status pod) = PodRunning")
      case True
      with Some show ?thesis by blast
    next
      case False
      with Some "1.hyps" have "f Get Print sends (Suc i) = Some r" by simp
      then have "\<exists>k\<ge>Suc i. Get k = None \<or> (\<exists>p. Get k = Some p \<and> Phase (Status p) = PodRunning)"
        by (rule "1.IH")
      then obtain k where "Suc i \<le> k"
        and "Get k = None \<or> (\<exists>p. Get k = Some p \<and> Phase (Status p) = PodRunning)" by blast
      then have "i \<le> k \<and> (Get k = None \<or> (\<exists>p. Get k = Some p \<and> Phase (Status p) = PodRunning))"
        by simp
      then show ?thesis by blast
    qed
  qed
qed (fact returns)

lemma pollLoop_never:
  assumes "\<forall>i. \<exists>p. G i = Some p \<and> Phase (Status p) \<noteq> PodRunning"
  shows "pollLoop G P sends j = None"
proof (cases "pollLoop G P sends j")
  case None
  then show ?thesis .
next
  case (Some y)
  then obtain k where "G k = None \<or> (\<exists>p. G k = Some p \<and> Phase (Status p) = PodRunning)"
    using pollLoop_Some_reaches by blast
  moreover from assms obtain p where "G k = Some p" "Phase (Status p) \<noteq> PodRunning" by blast
  ultimately show ?thesis by simp
qed

lemma pollLoop_reaches:
  assumes "\<forall>i<k. \<exists>p. G (j + i) = Some p \<and> Phase (Status p) \<noteq> PodRunning"
    and "G (j + k) = Some q" "Phase (Status q) = PodRunning"
  shows "pollLoop G P sends j =
    (case consume P [] sends of
       None \<Rightarrow> None
     | Some (out, oc) \<Rightarrow> Some \<lparr>lookups = Suc (j + k), printed = out, outcome = oc\<rparr>)"
  using assms
proof (induction k arbitrary: j)
  case 0
  then have "G j = Some q" by simp
  with 0 show ?case by (subst pollLoop.simps) (simp cong: option.case_cong prod.case_cong)
next
  case (Suc k)
  from Suc.prems(1) obtain p where p: "G j = Some p" "Phase (Status p) \<noteq> PodRunning"
    by force
  have "\<forall>i<k. \<exists>p. G (Suc j + i) = Some p \<and> Phase (Status p) \<noteq> PodRunning"
  proof (intro allI impI)
    fix i assume "i < k"
    then have "Suc i < Suc k" by simp
    with Suc.prems(1) have "\<exists>p. G (j + Suc i) = Some p \<and> Phase (Status p) \<noteq> PodRunning" by blast
    then show "\<exists>p. G (Suc j + i) = Some p \<and> Phase (Status p) \<noteq> PodRunning" by simp
  qed
  moreover have "G (Suc j + k) = Some q" using Suc.prems(2) by simp
  ultimately have "pollLoop G P sends (Suc j) =
    (case consume P [] sends of
       None \<Rightarrow> None
     | Some (out, oc) \<Rightarrow> Some \<lparr>lookups = Suc (Suc j + k), printed = out, outcome = oc\<rparr>)"
    using Suc.prems(3) by (rule Suc.IH)
  moreover have "pollLoop G P sends j = pollLoop G P sends (Suc j)"
    using p by (subst pollLoop.simps) simp
  ultimately show ?case by (simp cong: option.case_cong prod.case_cong)
qed

lemma pollLoop_outcome:
  assumes returns: "pollLoop G P sends j = Some r"
  shows "outcome r = NilDereference \<or> consume P [] sends = Some (printed r, outcome r)"
proof (induction G P sends j r rule: pollLoop.raw_induct)
  case (1 f Get Print sends i r)
  show ?case
  proof (cases "Get i")
    case None
    with "1.hyps" show ?thesis by auto
  next
    case (Some pod)
    show ?thesis
    proof (cases "Phase (Status pod) = PodRunning")
      case True
      show ?thesis
      proof (cases "consume Print [] sends")
        case None
        with True Some "1.hyps" show ?thesis by simp
      next
        case (Some a)
        obtain out oc where "a = (out, oc)" by (cases a)
        with Some True \<open>Get i = Some pod\<close> "1.hyps" show ?thesis by auto
      qed
    next
      case False
      with Some "1.hyps" have "f Get Print sends (Suc i) = Some r" by simp
      then show ?thesis by (rule "1.IH")
    qed
  qed
qed (fact returns)

lemma consume_Returned:
  "consume P out sends = Some (out', Returned x) \<Longrightarrow>
     x = None \<and> (\<exists>ls b post. sends = map logCh ls @ doneCh b # post \<and> (\<forall>l\<in>set ls. P l = None))"
proof (induction P out sends rule: consume.induct)
  case (1 Print out)
  then show ?case by simp
next
  case (2 Print out e rest)
  then show ?case by simp
next
  case (3 Print out logStream rest)
  show ?case
  proof (cases "Print logStream")
    case None
    with "3.prems" have "consume Print (out @ [logStream]) rest = Some (out', Returned x)" by simp
    with None "3.IH" obtain ls b post where
      "x = None" "rest = map logCh ls @ doneCh b # post" "\<forall>l\<in>set ls. Print l = None" by blast
    with None have "logCh logStream # rest = map logCh (logStream # ls) @ doneCh b # post"
      and "\<forall>l\<in>set (logStream # ls). Print l = None" by simp_all
    with \<open>x = None\<close> show ?thesis by blast
  next
    case (Some e)
    with "3.prems" show ?thesis by simp
  qed
next
  case (4 Print out b rest)
  then have "x = None" by simp
  moreover have "doneCh b # rest = map logCh [] @ doneCh b # rest \<and> (\<forall>l\<in>set []. Print l = None)"
    by simp
  ultimately show ?case by blast
qed

lemma consume_errCh:
  "\<forall>l\<in>set ls. P l = None \<Longrightarrow>
     consume P out (map logCh ls @ errCh e # post) = Some (out @ ls, Fatal e)"
  by (induction ls arbitrary: out) simp_all

text \<open>
  C6. In \<open>PrintE2ELogs\<close> one error received on the error channel ends the run through
  \<open>log.Fatal\<close>; it is not returned. Three facts, for every surrounding \<open>env\<close>:
  \<^item> when the call returns \<open>nil\<close>, the sender's sends are lines that were all printed,
    followed by the done signal;
  \<^item> the only error the call ever returns is the wrapped error of \<open>AddEventHandler\<close>,
    never an error of the log stream;
  \<^item> when the handler is added, the lookups before the \<open>k\<close>-th return pods that are not
    Running, the \<open>k\<close>-th returns a Running pod, and the sender sends lines (all printed)
    and then the error \<open>e\<close>, the call ends in \<open>log.Fatal e\<close>.
\<close>

theorem PrintE2ELogs_stream_error_is_fatal:
  "(\<forall>r. PrintE2ELogs env = Some r \<and> outcome r = Returned None \<longrightarrow>
         (\<exists>ls b post. podLogs env = map logCh ls @ doneCh b # post
                      \<and> (\<forall>l\<in>set ls. fmtPrint env l = None)))
   \<and> (\<forall>r e. PrintE2ELogs env = Some r \<and> outcome r = Returned (Some e) \<longrightarrow>
         (\<exists>h. addEventHandler env = Some h \<and> e = Errorf ''failed to add event handler'' h))
   \<and> (\<forall>k ls e post.
         addEventHandler env = None
         \<and> (\<forall>i<k. \<exists>p. lister env i = Some p \<and> Phase (Status p) \<noteq> PodRunning)
         \<and> (\<exists>q. lister env k = Some q \<and> Phase (Status q) = PodRunning)
         \<and> podLogs env = map logCh ls @ errCh e # post
         \<and> (\<forall>l\<in>set ls. fmtPrint env l = None)
         \<longrightarrow> PrintE2ELogs env = Some \<lparr>lookups = Suc k, printed = ls, outcome = Fatal e\<rparr>)"
proof (intro conjI allI impI)
  fix r
  assume a: "PrintE2ELogs env = Some r \<and> outcome r = Returned None"
  show "\<exists>ls b post. podLogs env = map logCh ls @ doneCh b # post
                      \<and> (\<forall>l\<in>set ls. fmtPrint env l = None)"
  proof (cases "addEventHandler env")
    case (Some h)
    with a show ?thesis by (auto simp: PrintE2ELogs_def)
  next
    case None
    with a have "pollLoop (lister env) (fmtPrint env) (podLogs env) 0 = Some r"
      by (simp add: PrintE2ELogs_def)
    from pollLoop_outcome [OF this] a
    have "consume (fmtPrint env) [] (podLogs env) = Some (printed r, Returned None)" by simp
    from consume_Returned [OF this] show ?thesis by blast
  qed
next
  fix r e
  assume a: "PrintE2ELogs env = Some r \<and> outcome r = Returned (Some e)"
  show "\<exists>h. addEventHandler env = Some h \<and> e = Errorf ''failed to add event handler'' h"
  proof (cases "addEventHandler env")
    case (Some h)
    with a show ?thesis by (auto simp: PrintE2ELogs_def)
  next
    case None
    with a have "pollLoop (lister env) (fmtPrint env) (podLogs env) 0 = Some r"
      by (simp add: PrintE2ELogs_def)
    from pollLoop_outcome [OF this] a
    have "consume (fmtPrint env) [] (podLogs env) = Some (printed r, Returned (Some e))" by simp
    from consume_Returned [OF this] show ?thesis by simp
  qed
next
  fix k ls e post
  assume a: "addEventHandler env = None
         \<and> (\<forall>i<k. \<exists>p. lister env i = Some p \<and> Phase (Status p) \<noteq> PodRunning)
         \<and> (\<exists>q. lister env k = Some q \<and> Phase (Status q) = PodRunning)
         \<and> podLogs env = map logCh ls @ errCh e # post
         \<and> (\<forall>l\<in>set ls. fmtPrint env l = None)"
  then obtain q where q: "lister env (0 + k) = Some q" "Phase (Status q) = PodRunning" by auto
  from a have before: "\<forall>i<k. \<exists>p. lister env (0 + i) = Some p \<and> Phase (Status p) \<noteq> PodRunning"
    by simp
  from a have "consume (fmtPrint env) [] (podLogs env) = Some ([] @ ls, Fatal e)"
    using consume_errCh [of ls "fmtPrint env" "[]" e post] by simp
  with pollLoop_reaches [OF before q, of "fmtPrint env" "podLogs env"]
  have "pollLoop (lister env) (fmtPrint env) (podLogs env) 0
      = Some \<lparr>lookups = Suc k, printed = ls, outcome = Fatal e\<rparr>" by simp
  with a show "PrintE2ELogs env = Some \<lparr>lookups = Suc k, printed = ls, outcome = Fatal e\<rparr>"
    by (simp add: PrintE2ELogs_def)
qed

theorem PrintE2ELogs_stream_error_is_fatal_witness:
  "addEventHandler brokenEnv = None
   \<and> (\<exists>p. lister brokenEnv 0 = Some p \<and> Phase (Status p) \<noteq> PodRunning)
   \<and> (\<exists>p. lister brokenEnv 1 = Some p \<and> Phase (Status p) \<noteq> PodRunning)
   \<and> (\<exists>q. lister brokenEnv 2 = Some q \<and> Phase (Status q) = PodRunning)
   \<and> podLogs brokenEnv = map logCh [''x''] @ errCh (Err ''connection reset'') # [doneCh True]
   \<and> fmtPrint brokenEnv ''x'' = None
   \<and> PrintE2ELogs brokenEnv
       = Some \<lparr>lookups = 3, printed = [''x''], outcome = Fatal (Err ''connection reset'')\<rparr>"
proof -
  have h1: "addEventHandler brokenEnv = None" by (simp add: brokenEnv_def)
  have h2: "\<forall>i<2. \<exists>p. lister brokenEnv i = Some p \<and> Phase (Status p) \<noteq> PodRunning"
    by (simp add: brokenEnv_def startsThird_def pendingPod_def mkPod_def)
  have h3: "\<exists>q. lister brokenEnv 2 = Some q \<and> Phase (Status q) = PodRunning"
    by (simp add: brokenEnv_def startsThird_def runningPod_def mkPod_def)
  have h4: "podLogs brokenEnv = map logCh [''x''] @ errCh (Err ''connection reset'') # [doneCh True]"
    by (simp add: brokenEnv_def)
  have h5: "\<forall>l\<in>set [''x'']. fmtPrint brokenEnv l = None"
    by (simp add: brokenEnv_def quietPrint_def)
  from PrintE2ELogs_stream_error_is_fatal [of brokenEnv]
  have "\<forall>k ls e post.
         addEventHandler brokenEnv = None
         \<and> (\<forall>i<k. \<exists>p. lister brokenEnv i = Some p \<and> Phase (Status p) \<noteq> PodRunning)
         \<and> (\<exists>q. lister brokenEnv k = Some q \<and> Phase (Status q) = PodRunning)
         \<and> podLogs brokenEnv = map logCh ls @ errCh e # post
         \<and> (\<forall>l\<in>set ls. fmtPrint brokenEnv l = None)
         \<longrightarrow> PrintE2ELogs brokenEnv = Some \<lparr>lookups = Suc k, printed = ls, outcome = Fatal e\<rparr>"
    by (elim conjE)
  with h1 h2 h3 h4 h5
  have "PrintE2ELogs brokenEnv
      = Some \<lparr>lookups = Suc 2, printed = [''x''], outcome = Fatal (Err ''connection reset'')\<rparr>"
    by blast
  then have r: "PrintE2ELogs brokenEnv
       = Some \<lparr>lookups = 3, printed = [''x''], outcome = Fatal (Err ''connection reset'')\<rparr>"
    by simp
  have p0: "\<exists>p. lister brokenEnv 0 = Some p \<and> Phase (Status p) \<noteq> PodRunning"
    and p1: "\<exists>p. lister brokenEnv 1 = Some p \<and> Phase (Status p) \<noteq> PodRunning"
    using h2 by simp_all
  have q: "fmtPrint brokenEnv ''x'' = None" using h5 by simp
  from h1 p0 p1 h3 h4 q r show ?thesis by (intro conjI)
qed

text \<open>
  C7, as amended. When the event handler is added and every lookup of the readiness
  poll returns a pod:
  \<^item> if none of these pods is ever in phase Running, \<open>PrintE2ELogs\<close> never ends (the
    loop has no timeout and no bound on its iterations);
  \<^item> if the lookups before the \<open>k\<close>-th return pods that are not Running and the \<open>k\<close>-th
    returns a Running pod, polling stops after exactly \<open>k + 1\<close> lookups, and the call
    ends as the log consumer does.
\<close>

theorem PrintE2ELogs_polls_until_running:
  "addEventHandler env = None \<Longrightarrow>
   ((\<forall>i. \<exists>p. lister env i = Some p \<and> Phase (Status p) \<noteq> PodRunning)
      \<longrightarrow> PrintE2ELogs env = None)
   \<and> (\<forall>k. (\<forall>i<k. \<exists>p. lister env i = Some p \<and> Phase (Status p) \<noteq> PodRunning)
          \<and> (\<exists>q. lister env k = Some q \<and> Phase (Status q) = PodRunning)
        \<longrightarrow> PrintE2ELogs env =
              (case consume (fmtPrint env) [] (podLogs env) of
                 None \<Rightarrow> None
               | Some (out, oc) \<Rightarrow> Some \<lparr>lookups = Suc k, printed = out, outcome = oc\<rparr>))"
proof (intro conjI allI impI)
  assume h: "addEventHandler env = None"
    and "\<forall>i. \<exists>p. lister env i = Some p \<and> Phase (Status p) \<noteq> PodRunning"
  then have "pollLoop (lister env) (fmtPrint env) (podLogs env) 0 = None"
    by (intro pollLoop_never)
  with h show "PrintE2ELogs env = None" by (simp add: PrintE2ELogs_def)
next
  fix k
  assume h: "addEventHandler env = None"
    and a: "(\<forall>i<k. \<exists>p. lister env i = Some p \<and> Phase (Status p) \<noteq> PodRunning)
          \<and> (\<exists>q. lister env k = Some q \<and> Phase (Status q) = PodRunning)"
  then obtain q where q: "lister env (0 + k) = Some q" "Phase (Status q) = PodRunning" by auto
  from a have before: "\<forall>i<k. \<exists>p. lister env (0 + i) = Some p \<and> Phase (Status p) \<noteq> PodRunning"
    by simp
  from pollLoop_reaches [OF before q, of "fmtPrint env" "podLogs env"] h
  show "PrintE2ELogs env =
              (case consume (fmtPrint env) [] (podLogs env) of
                 None \<Rightarrow> None
               | Some (out, oc) \<Rightarrow> Some \<lparr>lookups = Suc k, printed = out, outcome = oc\<rparr>)"
    by (simp add: PrintE2ELogs_def cong: option.case_cong prod.case_cong)
qed

theorem PrintE2ELogs_polls_until_running_witness:
  "addEventHandler stuckEnv = None
   \<and> (\<forall>i. \<exists>p. lister stuckEnv i = Some p \<and> Phase (Status p) \<noteq> PodRunning)
   \<and> PrintE2ELogs stuckEnv = None
   \<and> addEventHandler cleanEnv = None
   \<and> (\<exists>p. lister cleanEnv 0 = Some p \<and> Phase (Status p) \<noteq> PodRunning)
   \<and> (\<exists>p. lister cleanEnv 1 = Some p \<and> Phase (Status p) \<noteq> PodRunning)
   \<and> (\<exists>q. lister cleanEnv 2 = Some q \<and> Phase (Status q) = PodRunning)
   \<and> PrintE2ELogs cleanEnv
       = Some \<lparr>lookups = 3, printed = [''a'', ''b''], outcome = Returned None\<rparr>"
proof -
  have s1: "addEventHandler stuckEnv = None" by (simp add: stuckEnv_def)
  have s2: "\<forall>i. \<exists>p. lister stuckEnv i = Some p \<and> Phase (Status p) \<noteq> PodRunning"
    by (simp add: stuckEnv_def pendingForever_def pendingPod_def mkPod_def)
  from PrintE2ELogs_polls_until_running [OF s1] s2
  have s3: "PrintE2ELogs stuckEnv = None" by blast
  have c1: "addEventHandler cleanEnv = None" by (simp add: cleanEnv_def)
  have c2: "\<forall>i<2. \<exists>p. lister cleanEnv i = Some p \<and> Phase (Status p) \<noteq> PodRunning"
    by (simp add: cleanEnv_def startsThird_def pendingPod_def mkPod_def)
  have c3: "\<exists>q. lister cleanEnv 2 = Some q \<and> Phase (Status q) = PodRunning"
    by (simp add: cleanEnv_def startsThird_def runningPod_def mkPod_def)
  from PrintE2ELogs_polls_until_running [OF c1] c2 c3
  have "PrintE2ELogs cleanEnv =
              (case consume (fmtPrint cleanEnv) [] (podLogs cleanEnv) of
                 None \<Rightarrow> None
               | Some (out, oc) \<Rightarrow> Some \<lparr>lookups = Suc 2, printed = out, outcome = oc\<rparr>)"
    by blast
  also have "consume (fmtPrint cleanEnv) [] (podLogs cleanEnv) = Some ([''a'', ''b''], Returned None)"
    by (simp add: cleanEnv_def quietPrint_def)
  finally have c4: "PrintE2ELogs cleanEnv
       = Some \<lparr>lookups = 3, printed = [''a'', ''b''], outcome = Returned None\<rparr>"
    by simp
  have p0: "\<exists>p. lister cleanEnv 0 = Some p \<and> Phase (Status p) \<noteq> PodRunning"
    and p1: "\<exists>p. lister cleanEnv 1 = Some p \<and> Phase (Status p) \<noteq> PodRunning"
    using c2 by simp_all
  from s1 s2 s3 c1 p0 p1 c3 c4 show ?thesis by (intro conjI)
qed

theorem PrintE2ELogs_polls_until_running_counterexample:
  "PrintE2ELogs vanishingEnv = Some \<lparr>lookups = 3, printed = [], outcome = NilDereference\<rparr>"
  by (simp add: PrintE2ELogs_def pollLoop.simps vanishingEnv_def vanishingPod_def
      pendingPod_def mkPod_def)

text \<open>
  C8. The claim holds of the intended behaviour, not of the code: when the first lookup
  finds no pod, the lister returns a nil pointer together with an error, the code
  drops the error, and \<open>PrintE2ELogs\<close> reads the phase through the nil pointer. The
  call ends in a panic after one lookup, not in an error returned to the caller.
\<close>

theorem PrintE2ELogs_lookup_failure_dereferences_nil:
  "PrintE2ELogs notFoundEnv = Some \<lparr>lookups = 1, printed = [], outcome = NilDereference\<rparr>"
  by (simp add: PrintE2ELogs_def pollLoop.simps notFoundEnv_def neverFound_def)

section \<open>The kubeconfig path of a completed configuration\<close>

lemma defaultKubeconfig_nonempty:
  assumes home: "\<forall>n h. UserHomeDir os n = Inr h \<longrightarrow> h \<noteq> []"
    and join: "\<forall>xs. (\<exists>x\<in>set xs. x \<noteq> []) \<longrightarrow> Join os xs \<noteq> []"
    and ok: "defaultKubeconfig os result = (n, Inr result')"
  shows "Kubeconfig result' \<noteq> []"
proof (cases "Kubeconfig result = []")
  case False
  with ok show ?thesis by (simp add: defaultKubeconfig_def)
next
  case empty: True
  show ?thesis
  proof (cases "Getenv os ''KUBECONFIG'' = []")
    case False
    with empty ok show ?thesis by (auto simp: defaultKubeconfig_def)
  next
    case True
    show ?thesis
    proof (cases "UserHomeDir os 0")
      case (Inl e)
      with empty True ok show ?thesis by (simp add: defaultKubeconfig_def)
    next
      case (Inr homeDir)
      with empty True ok
      have r: "result' = result\<lparr>Kubeconfig := Join os [homeDir, ''.kube'', ''config'']\<rparr>"
        by (simp add: defaultKubeconfig_def)
      have "\<exists>x\<in>set [homeDir, ''.kube'', ''config'']. x \<noteq> []" by simp
      with join have "Join os [homeDir, ''.kube'', ''config''] \<noteq> []" by blast
      with r show ?thesis by simp
    qed
  qed
qed

lemma expandTilde_nonempty:
  assumes home: "\<forall>n h. UserHomeDir os n = Inr h \<longrightarrow> h \<noteq> []"
    and join: "\<forall>xs. (\<exists>x\<in>set xs. x \<noteq> []) \<longrightarrow> Join os xs \<noteq> []"
    and before: "Kubeconfig result \<noteq> []"
    and ok: "expandTilde os n ck result = (m, Ok result')"
  shows "Kubeconfig result' \<noteq> []"
proof (cases "HasPrefix (Kubeconfig result) ''~''")
  case False
  with ok before show ?thesis by (simp add: expandTilde_def)
next
  case True
  show ?thesis
  proof (cases "UserHomeDir os n")
    case (Inl e)
    with True ok show ?thesis by (simp add: expandTilde_def)
  next
    case (Inr homeDir)
    with home have h: "homeDir \<noteq> []" by blast
    show ?thesis
    proof (cases "ck = []")
      case True
      with \<open>HasPrefix (Kubeconfig result) ''~''\<close> Inr ok show ?thesis
        by (simp add: expandTilde_def)
    next
      case False
      with \<open>HasPrefix (Kubeconfig result) ''~''\<close> Inr ok
      have r: "result' = result\<lparr>Kubeconfig := Join os [homeDir, tl ck]\<rparr>"
        by (simp add: expandTilde_def)
      from h have "\<exists>x\<in>set [homeDir, tl ck]. x \<noteq> []" by simp
      with join have "Join os [homeDir, tl ck] \<noteq> []" by blast
      with r show ?thesis by simp
    qed
  qed
qed

lemma joinElems_nonempty: "\<exists>x\<in>set xs. x \<noteq> [] \<Longrightarrow> joinElems xs \<noteq> []"
  by (induction xs) auto

text \<open>
  C9. \<open>Complete\<close> gives up at once when the home directory cannot be determined:
  if the kubeconfig path is empty after flags and file are merged, \<open>KUBECONFIG\<close> is
  unset or empty, and the first call of \<open>os.UserHomeDir\<close> fails with \<open>e\<close>, then
  \<open>Complete\<close> returns the error \<open>failed to determine home directory: e\<close> after that
  one call, whatever a later call would answer. The same holds of the call made for a
  path that starts with \<open>~\<close>: when it fails, the error is returned at once. And when \<open>Complete\<close> returns a
  configuration, its \<open>Kubeconfig\<close> is not empty, given what the standard library
  promises: \<open>os.UserHomeDir\<close> returns no empty directory without an error, and
  \<open>filepath.Join\<close> of elements that are not all empty is not empty.
\<close>

theorem Complete_home_directory_error:
  "(\<forall>result same e.
      loadAndOverwrite os fs c = Inr (result, same) \<and> Kubeconfig result = []
      \<and> Getenv os ''KUBECONFIG'' = [] \<and> UserHomeDir os 0 = Inl e
      \<longrightarrow> Complete os fs c
            = \<lparr>homeCalls = 1,
               returned = Failure (Errorf ''failed to determine home directory'' e)\<rparr>)
   \<and> (\<forall>result same n result' e.
        loadAndOverwrite os fs c = Inr (result, same)
        \<and> defaultKubeconfig os result = (n, Inr result')
        \<and> HasPrefix (Kubeconfig result') ''~'' \<and> UserHomeDir os n = Inl e
        \<longrightarrow> Complete os fs c
              = \<lparr>homeCalls = Suc n,
                 returned = Failure (Errorf ''failed to determine home directory'' e)\<rparr>)
   \<and> (\<forall>cfg.
        (\<forall>n h. UserHomeDir os n = Inr h \<longrightarrow> h \<noteq> [])
        \<and> (\<forall>xs. (\<exists>x\<in>set xs. x \<noteq> []) \<longrightarrow> Join os xs \<noteq> [])
        \<and> returned (Complete os fs c) = Ok cfg
        \<longrightarrow> Kubeconfig cfg \<noteq> [])"
proof (intro conjI allI impI)
  fix result same e
  assume "loadAndOverwrite os fs c = Inr (result, same) \<and> Kubeconfig result = []
      \<and> Getenv os ''KUBECONFIG'' = [] \<and> UserHomeDir os 0 = Inl e"
  then show "Complete os fs c
            = \<lparr>homeCalls = 1,
               returned = Failure (Errorf ''failed to determine home directory'' e)\<rparr>"
    by (simp add: Complete_def defaultKubeconfig_def)
next
  fix result same n result' e
  assume "loadAndOverwrite os fs c = Inr (result, same)
        \<and> defaultKubeconfig os result = (n, Inr result')
        \<and> HasPrefix (Kubeconfig result') ''~'' \<and> UserHomeDir os n = Inl e"
  then show "Complete os fs c
              = \<lparr>homeCalls = Suc n,
                 returned = Failure (Errorf ''failed to determine home directory'' e)\<rparr>"
    by (simp add: Complete_def expandTilde_def)
next
  fix cfg
  assume a: "(\<forall>n h. UserHomeDir os n = Inr h \<longrightarrow> h \<noteq> [])
        \<and> (\<forall>xs. (\<exists>x\<in>set xs. x \<noteq> []) \<longrightarrow> Join os xs \<noteq> [])
        \<and> returned (Complete os fs c) = Ok cfg"
  then have home: "\<forall>n h. UserHomeDir os n = Inr h \<longrightarrow> h \<noteq> []"
    and join: "\<forall>xs. (\<exists>x\<in>set xs. x \<noteq> []) \<longrightarrow> Join os xs \<noteq> []"
    and ok: "returned (Complete os fs c) = Ok cfg" by simp_all
  show "Kubeconfig cfg \<noteq> []"
  proof (cases "loadAndOverwrite os fs c")
    case (Inl e)
    with ok show ?thesis by (simp add: Complete_def)
  next
    case (Inr rs)
    obtain result same where rs: "rs = (result, same)" by (cases rs)
    obtain n d where d: "defaultKubeconfig os result = (n, d)"
      by (cases "defaultKubeconfig os result")
    show ?thesis
    proof (cases d)
      case (Inl e)
      with ok Inr rs d show ?thesis by (simp add: Complete_def)
    next
      case result': (Inr result')
      with d have d': "defaultKubeconfig os result = (n, Inr result')" by simp
      have ne: "Kubeconfig result' \<noteq> []"
        using home join d' by (rule defaultKubeconfig_nonempty)
      obtain m x where x:
        "expandTilde os n (if same then Kubeconfig result' else Kubeconfig c) result' = (m, x)"
        by (cases "expandTilde os n (if same then Kubeconfig result' else Kubeconfig c) result'")
      show ?thesis
      proof (cases x)
        case (Ok result'')
        with x have x': "expandTilde os n (if same then Kubeconfig result' else Kubeconfig c) result'
            = (m, Ok result'')" by simp
        have ne': "Kubeconfig result'' \<noteq> []"
          using home join ne x' by (rule expandTilde_nonempty)
        show ?thesis
        proof (cases "Validate os result''")
          case None
          with ok Inr rs d' x' have "cfg = result''" by (simp add: Complete_def)
          with ne' show ?thesis by simp
        next
          case (Some e)
          with ok Inr rs d' x' show ?thesis by (simp add: Complete_def)
        qed
      next
        case (Failure e)
        with ok Inr rs d' x show ?thesis by (simp add: Complete_def)
      next
        case SliceOutOfRange
        with ok Inr rs d' x show ?thesis by (simp add: Complete_def)
      qed
    qed
  qed
qed

theorem Complete_home_directory_error_witness:
  "loadAndOverwrite noHomeOs noFlags defaultConfiguration = Inr (defaultConfiguration, True)
   \<and> Kubeconfig defaultConfiguration = []
   \<and> Getenv noHomeOs ''KUBECONFIG'' = []
   \<and> UserHomeDir noHomeOs 0 = Inl (Err ''$HOME is not defined'')
   \<and> Complete noHomeOs noFlags defaultConfiguration
       = \<lparr>homeCalls = 1,
          returned = Failure (Errorf ''failed to determine home directory''
                                (Err ''$HOME is not defined''))\<rparr>
   \<and> returned (Complete homeOs noFlags defaultConfiguration)
       = Ok (defaultConfiguration\<lparr>Kubeconfig := ''/home/user/.kube/config''\<rparr>)
   \<and> Kubeconfig (defaultConfiguration\<lparr>Kubeconfig := ''/home/user/.kube/config''\<rparr>) \<noteq> []"
proof -
  have h1: "loadAndOverwrite noHomeOs noFlags defaultConfiguration
      = Inr (defaultConfiguration, True)"
    by (simp add: loadAndOverwrite_def defaultConfiguration_def)
  have h2: "Kubeconfig defaultConfiguration = []" by (simp add: defaultConfiguration_def)
  have h3: "Getenv noHomeOs ''KUBECONFIG'' = []" by (simp add: noHomeOs_def unsetEnv_def)
  have h4: "UserHomeDir noHomeOs 0 = Inl (Err ''$HOME is not defined'')"
    by (simp add: noHomeOs_def homeUndefined_def)
  from Complete_home_directory_error [of noHomeOs noFlags defaultConfiguration] h1 h2 h3 h4
  have r1: "Complete noHomeOs noFlags defaultConfiguration
       = \<lparr>homeCalls = 1,
          returned = Failure (Errorf ''failed to determine home directory''
                                (Err ''$HOME is not defined''))\<rparr>"
    by blast
  have g1: "\<forall>n h. UserHomeDir homeOs n = Inr h \<longrightarrow> h \<noteq> []"
    by (simp add: homeOs_def homeOfUser_def)
  have g2: "\<forall>xs. (\<exists>x\<in>set xs. x \<noteq> []) \<longrightarrow> Join homeOs xs \<noteq> []"
    by (simp add: homeOs_def joinElems_nonempty)
  have g3: "returned (Complete homeOs noFlags defaultConfiguration)
       = Ok (defaultConfiguration\<lparr>Kubeconfig := ''/home/user/.kube/config''\<rparr>)"
    by (simp add: Complete_def loadAndOverwrite_def defaultKubeconfig_def expandTilde_def
        HasPrefix_def homeOs_def unsetEnv_def homeOfUser_def accepts_def defaultConfiguration_def)
  from Complete_home_directory_error [of homeOs noFlags defaultConfiguration] g1 g2 g3
  have r2: "Kubeconfig (defaultConfiguration\<lparr>Kubeconfig := ''/home/user/.kube/config''\<rparr>) \<noteq> []"
    by blast
  from h1 h2 h3 h4 r1 g3 r2 show ?thesis by (intro conjI)
qed

end
